theory Spec2Isabelle
  imports Main "HOL-Library.Word" "HOL-Library.Sublist"
begin

section \<open>Errors and close codes\<close>

text \<open>
  A Go \<open>error\<close> value is either gorilla/websocket's \<open>*CloseError\<close>
  (close code and text) or any other error, kept by its message. \<open>nil\<close> is
  \<open>None\<close> of \<open>go_error option\<close>.
\<close>

datatype go_error = CloseError int string | ErrorString string

definition CloseNormalClosure :: int where
  "CloseNormalClosure = 1000"

definition CloseGoingAway :: int where
  "CloseGoingAway = 1001"

definition CloseNoStatusReceived :: int where
  "CloseNoStatusReceived = 1005"

definition CloseAbnormalClosure :: int where
  "CloseAbnormalClosure = 1006"

text \<open>
  \<open>websocket.IsCloseError(err, codes...)\<close>: true when \<open>err\<close> is a
  \<open>*CloseError\<close> whose code is one of \<open>codes\<close>.
\<close>

fun IsCloseError :: "go_error \<Rightarrow> int list \<Rightarrow> bool" where
  "IsCloseError (CloseError code txt) codes = (code \<in> set codes)"
| "IsCloseError (ErrorString m) codes = False"

text \<open>The code list both failure branches of \<open>proxyWS\<close> pass to \<open>IsCloseError\<close>.\<close>

definition closeCodes :: "int list" where
  "closeCodes = [CloseNormalClosure, CloseNoStatusReceived, CloseGoingAway, CloseAbnormalClosure]"

section \<open>The forwarding loop \<open>proxyWS\<close>\<close>

text \<open>
  A message is its frame type (\<open>mt\<close>, an \<open>int\<close>) and its payload (\<open>msg\<close>, a
  byte slice). The source connection is the list of what successive calls of
  \<open>src.ReadMessage()\<close> return: a message, an error, or a panic (with the
  panic value as \<open>%v\<close> prints it). When the list is used up the call blocks: no
  further event arrives on the connection.

  \<open>dst.WriteMessage(mt, msg)\<close> is a call into the environment too: its
  result is a function of the messages the destination has accepted so far and of the
  message offered.
\<close>

type_synonym message = "int \<times> 8 word list"

datatype read_result = ReadOk int "8 word list" | ReadErr go_error | ReadPanic string

datatype write_result = WriteOk | WriteErr go_error | WritePanic string

type_synonym writer = "message list \<Rightarrow> message \<Rightarrow> write_result"

text \<open>
  How the body of \<open>proxyWS\<close> stands: blocked in \<open>ReadMessage\<close>, left by
  \<open>return\<close>, or unwinding with a panic.
\<close>

datatype exit = Blocked | Returned | Panicking string

text \<open>
  The state of one loop: the two counters (\<open>messageCount\<close> is a Go \<open>int\<close>,
  \<open>totalBytes\<close> an \<open>int64\<close>), the \<open>WriteMessage\<close> calls made
  (\<open>offered\<close>), the messages the destination accepted (\<open>delivered\<close>), the
  values sent on \<open>errc\<close> (a channel of capacity 2 that is never closed and
  receives one value per loop: a send neither blocks nor panics), and the exit.
\<close>

record relay =
  messageCount :: "64 word"
  totalBytes :: "64 word"
  offered :: "message list"
  delivered :: "message list"
  errc :: "go_error option list"
  exit :: exit

text \<open>
  The \<open>for\<close> loop of \<open>proxyWS\<close>. The \<open>fmt.Printf\<close> lines (and the
  \<open>msgType\<close> they print under \<open>debug\<close>) write to standard output only and
  are left out; every slice expression there is guarded by a length test.
\<close>

fun forward :: "writer \<Rightarrow> read_result list \<Rightarrow> relay \<Rightarrow> relay" where
  "forward dst [] s = s\<lparr>exit := Blocked\<rparr>"
| "forward dst (ReadPanic v # src) s = s\<lparr>exit := Panicking v\<rparr>"
| "forward dst (ReadErr err # src) s =
     (if IsCloseError err closeCodes
      then s\<lparr>errc := errc s @ [None], exit := Returned\<rparr>
      else s\<lparr>errc := errc s @ [Some err], exit := Returned\<rparr>)"
| "forward dst (ReadOk mt msg # src) s =
     (let s1 = s\<lparr>messageCount := messageCount s + 1,
                  totalBytes := totalBytes s + of_nat (length msg),
                  offered := offered s @ [(mt, msg)]\<rparr>
      in case dst (delivered s1) (mt, msg) of
           WritePanic v \<Rightarrow> s1\<lparr>exit := Panicking v\<rparr>
         | WriteErr err \<Rightarrow>
             (if IsCloseError err closeCodes
              then s1\<lparr>errc := errc s1 @ [None], exit := Returned\<rparr>
              else s1\<lparr>errc := errc s1 @ [Some err], exit := Returned\<rparr>)
         | WriteOk \<Rightarrow> forward dst src (s1\<lparr>delivered := delivered s1 @ [(mt, msg)]\<rparr>))"

text \<open>
  The deferred function: \<open>recover()\<close> is non-nil exactly when the body is
  panicking; then \<open>fmt.Errorf("panic: %v", r)\<close> is sent on \<open>errc\<close> and the
  function returns normally.
\<close>

definition deferred :: "relay \<Rightarrow> relay" where
  "deferred s =
     (case exit s of
        Panicking r \<Rightarrow> s\<lparr>errc := errc s @ [Some (ErrorString (''panic: '' @ r))], exit := Returned\<rparr>
      | Returned \<Rightarrow> s
      | Blocked \<Rightarrow> s)"

text \<open>
  \<open>proxyWS(src, dst, errc, label, debug)\<close>; \<open>errc\<close> is what the channel has
  received before the call. \<open>label\<close> and \<open>debug\<close> reach the log lines only.
\<close>

definition proxyWS ::
  "read_result list \<Rightarrow> writer \<Rightarrow> go_error option list \<Rightarrow> string \<Rightarrow> bool \<Rightarrow> relay" where
  "proxyWS src dst errc0 label debug =
     deferred (forward dst src
       \<lparr>messageCount = 0, totalBytes = 0, offered = [], delivered = [], errc = errc0, exit = Blocked\<rparr>)"

text \<open>The messages at the head of the source that are read without failure.\<close>

fun readable :: "read_result list \<Rightarrow> message list" where
  "readable (ReadOk mt msg # src) = (mt, msg) # readable src"
| "readable src = []"

text \<open>The outcome both failure branches send for a read or write error.\<close>

definition outcome :: "go_error \<Rightarrow> go_error option" where
  "outcome err = (if IsCloseError err closeCodes then None else Some err)"

text \<open>
  For stating the properties. \<open>reads ms\<close> is a source on which the messages
  \<open>ms\<close> arrive; \<open>accepts dst h ms\<close> says that a destination that has accepted
  \<open>h\<close> accepts the messages \<open>ms\<close> one after the other; \<open>graceful\<close> are the
  close indications of RFC 6455 the specification names: normal closure (1000), going
  away (1001), no status received (1005) and abnormal closure (1006).
\<close>

definition reads :: "message list \<Rightarrow> read_result list" where
  "reads ms = map (\<lambda>(mt, msg). ReadOk mt msg) ms"

fun accepts :: "writer \<Rightarrow> message list \<Rightarrow> message list \<Rightarrow> bool" where
  "accepts dst h [] = True"
| "accepts dst h (m # ms) = (dst h m = WriteOk \<and> accepts dst (h @ [m]) ms)"

fun graceful :: "go_error \<Rightarrow> bool" where
  "graceful (CloseError code txt) = (code = 1000 \<or> code = 1001 \<or> code = 1005 \<or> code = 1006)"
| "graceful (ErrorString m) = False"

section \<open>The credential cache \<open>ProxiedList\<close>\<close>

text \<open>
  \<open>ProxiedItem\<close> with its \<open>timer\<close> pointer: timers live in the runtime's
  timer table and an item holds the index of its timer there.
\<close>

record ProxiedItem =
  Token :: string
  Cookie :: string
  CSRFPreventionToken :: string
  URL :: string
  timer :: nat

text \<open>
  A \<open>time.Timer\<close> made by \<open>time.AfterFunc(d, f)\<close> in \<open>Add\<close>: the key its
  function \<open>f\<close> captured, the clock value from which it can expire, whether it is
  still armed (neither stopped nor expired), and whether it has expired with its
  function started in a goroutine of its own that has not yet run
  \<open>pl.data.Delete(key)\<close>.
\<close>

record Timer =
  tkey :: string
  deadline :: nat
  armed :: bool
  pending :: bool

text \<open>
  \<open>ProxiedList\<close>: the \<open>sync.Map\<close> \<open>data\<close> and the \<open>ttl\<close> (a
  \<open>time.Duration\<close>, signed), together with the part of the runtime its methods
  act on: the timer table and the monotonic clock.
\<close>

record ProxiedList =
  data :: "string \<rightharpoonup> ProxiedItem"
  ttl :: int
  timers :: "Timer list"
  clock :: nat

definition NewProxiedList :: "int \<Rightarrow> ProxiedList" where
  "NewProxiedList d = \<lparr>data = Map.empty, ttl = d, timers = [], clock = 0\<rparr>"

text \<open>The atomic operations of \<open>sync.Map\<close> and of the timers.\<close>

definition Load :: "ProxiedList \<Rightarrow> string \<Rightarrow> ProxiedItem option" where
  "Load pl key = data pl key"

definition Store :: "ProxiedList \<Rightarrow> string \<Rightarrow> ProxiedItem \<Rightarrow> ProxiedList" where
  "Store pl key item = pl\<lparr>data := (data pl)(key \<mapsto> item)\<rparr>"

definition Delete :: "ProxiedList \<Rightarrow> string \<Rightarrow> ProxiedList" where
  "Delete pl key = pl\<lparr>data := (data pl)(key := None)\<rparr>"

text \<open>
  \<open>t.Stop()\<close>: an armed timer is armed no more; a timer that has expired or was
  stopped is left as it is.
\<close>

definition Stop :: "nat \<Rightarrow> ProxiedList \<Rightarrow> ProxiedList" where
  "Stop t pl =
     (if t < length (timers pl)
      then pl\<lparr>timers := (timers pl)[t := (timers pl ! t)\<lparr>armed := False\<rparr>]\<rparr>
      else pl)"

text \<open>
  \<open>time.AfterFunc(d, func() { pl.data.Delete(key) })\<close>: a new armed timer, due
  \<open>d\<close> from now (at once when \<open>d\<close> is not positive); the result is the new
  timer.
\<close>

definition AfterFunc :: "int \<Rightarrow> string \<Rightarrow> ProxiedList \<Rightarrow> nat \<times> ProxiedList" where
  "AfterFunc d key pl =
     (length (timers pl),
      pl\<lparr>timers := timers pl @
            [\<lparr>tkey = key, deadline = clock pl + nat d, armed = True, pending = False\<rparr>]\<rparr>)"

text \<open>\<open>Add\<close>, run without interruption.\<close>

definition Add ::
  "ProxiedList \<Rightarrow> string \<Rightarrow> string \<Rightarrow> string \<Rightarrow> string \<Rightarrow> string \<Rightarrow> ProxiedList" where
  "Add pl key token cookie csrfp_revention_token url =
     (let pl1 = (case Load pl key of
                   Some oldItem \<Rightarrow> Stop (timer oldItem) pl
                 | None \<Rightarrow> pl);
          (t, pl2) = AfterFunc (ttl pl1) key pl1;
          item = \<lparr>Token = token, Cookie = cookie,
                  CSRFPreventionToken = csrfp_revention_token, URL = url, timer = t\<rparr>
      in Store pl2 key item)"

text \<open>
  \<open>Get\<close> returns the four fields, or the error \<open>key ... not found\<close>; as a
  method on the list it also returns the list it leaves behind.
\<close>

type_synonym fields = "string \<times> string \<times> string \<times> string"

definition Get :: "ProxiedList \<Rightarrow> string \<Rightarrow> (string + fields) \<times> ProxiedList" where
  "Get pl key =
     (case Load pl key of
        Some item \<Rightarrow> (Inr (Token item, Cookie item, CSRFPreventionToken item, URL item), pl)
      | None \<Rightarrow> (Inl (''key '' @ key @ '' not found''), pl))"

definition Remove :: "ProxiedList \<Rightarrow> string \<Rightarrow> ProxiedList" where
  "Remove pl key =
     (case Load pl key of
        Some item \<Rightarrow> Delete (Stop (timer item) pl) key
      | None \<Rightarrow> pl)"

text \<open>
  Time and the goroutines of the timers. \<open>tick d\<close>: \<open>d\<close> units of time pass.
  \<open>expire t\<close>: the runtime finds the armed timer \<open>t\<close> due and starts its
  function in a goroutine of its own; from then on \<open>Stop\<close> does nothing to it (it
  returns false, and \<open>Add\<close> and \<open>Remove\<close> drop what it returns).
  \<open>timerFunc t\<close>: that goroutine runs \<open>pl.data.Delete(key)\<close>, whatever item
  is stored under the key by then. The three are steps of their own: any call on the
  list, and any step of one, can come between them.
\<close>

definition tick :: "nat \<Rightarrow> ProxiedList \<Rightarrow> ProxiedList" where
  "tick d pl = pl\<lparr>clock := clock pl + d\<rparr>"

definition expire :: "nat \<Rightarrow> ProxiedList \<Rightarrow> ProxiedList" where
  "expire t pl =
     (if t < length (timers pl) \<and> armed (timers pl ! t) \<and> deadline (timers pl ! t) \<le> clock pl
      then pl\<lparr>timers := (timers pl)[t := (timers pl ! t)\<lparr>armed := False, pending := True\<rparr>]\<rparr>
      else pl)"

definition timerFunc :: "nat \<Rightarrow> ProxiedList \<Rightarrow> ProxiedList" where
  "timerFunc t pl =
     (if t < length (timers pl) \<and> pending (timers pl ! t)
      then Delete (pl\<lparr>timers := (timers pl)[t := (timers pl ! t)\<lparr>pending := False\<rparr>]\<rparr>)
             (tkey (timers pl ! t))
      else pl)"

text \<open>The armed timers whose function deletes \<open>key\<close>.\<close>

definition armedTimers :: "string \<Rightarrow> ProxiedList \<Rightarrow> nat list" where
  "armedTimers key pl =
     filter (\<lambda>t. armed (timers pl ! t) \<and> tkey (timers pl ! t) = key) [0..<length (timers pl)]"

text \<open>No timer of the table is armed and none has its function pending.\<close>

definition idle :: "ProxiedList \<Rightarrow> bool" where
  "idle pl = list_all (\<lambda>t. \<not> armed t \<and> \<not> pending t) (timers pl)"

subsection \<open>Calls that overlap\<close>

text \<open>
  A goroutine inside \<open>Add\<close>, \<open>Get\<close> or \<open>Remove\<close> stands before one of the
  atomic operations of the method; its local variables are the arguments of the
  constructor. A schedule names the goroutine that takes the next step.
\<close>

datatype pc =
    AddLoad string string string string string
  | AddStop string string string string string nat
  | AddAfterFunc string string string string string
  | AddStore string ProxiedItem
  | GetLoad string
  | RemoveLoad string
  | RemoveStop string nat
  | RemoveDelete string
  | Finished

fun step :: "pc \<Rightarrow> ProxiedList \<Rightarrow> pc \<times> ProxiedList" where
  "step (AddLoad key token cookie csrf url) pl =
     (case Load pl key of
        Some oldItem \<Rightarrow> (AddStop key token cookie csrf url (timer oldItem), pl)
      | None \<Rightarrow> (AddAfterFunc key token cookie csrf url, pl))"
| "step (AddStop key token cookie csrf url t) pl =
     (AddAfterFunc key token cookie csrf url, Stop t pl)"
| "step (AddAfterFunc key token cookie csrf url) pl =
     (let (t, pl') = AfterFunc (ttl pl) key pl
      in (AddStore key \<lparr>Token = token, Cookie = cookie,
                         CSRFPreventionToken = csrf, URL = url, timer = t\<rparr>, pl'))"
| "step (AddStore key item) pl = (Finished, Store pl key item)"
| "step (GetLoad key) pl = (Finished, pl)"
| "step (RemoveLoad key) pl =
     (case Load pl key of
        Some item \<Rightarrow> (RemoveStop key (timer item), pl)
      | None \<Rightarrow> (Finished, pl))"
| "step (RemoveStop key t) pl = (RemoveDelete key, Stop t pl)"
| "step (RemoveDelete key) pl = (Finished, Delete pl key)"
| "step Finished pl = (Finished, pl)"

fun run :: "nat list \<Rightarrow> pc list \<Rightarrow> ProxiedList \<Rightarrow> pc list \<times> ProxiedList" where
  "run [] gs pl = (gs, pl)"
| "run (i # sched) gs pl =
     (if i < length gs
      then (let (g, pl') = step (gs ! i) pl in run sched (gs[i := g]) pl')
      else run sched gs pl)"

text \<open>
  What can happen next, in general: a goroutine takes a step, time passes, a timer
  expires, or the function of an expired timer runs.
\<close>

datatype event = Go nat | Tick nat | Expire nat | Func nat

fun play :: "event list \<Rightarrow> pc list \<Rightarrow> ProxiedList \<Rightarrow> pc list \<times> ProxiedList" where
  "play [] gs pl = (gs, pl)"
| "play (Go i # es) gs pl =
     (if i < length gs
      then (let (g, pl') = step (gs ! i) pl in play es (gs[i := g]) pl')
      else play es gs pl)"
| "play (Tick d # es) gs pl = play es gs (tick d pl)"
| "play (Expire t # es) gs pl = play es gs (expire t pl)"
| "play (Func t # es) gs pl = play es gs (timerFunc t pl)"

section \<open>The target endpoint\<close>

text \<open>
  The fields of \<open>url.URL\<close> the program reads. \<open>url.Parse\<close> belongs to the
  standard library: it is a parameter \<open>parse\<close> of what follows, returning the
  parsed URL or the message of its error.
\<close>

record url =
  Scheme :: string
  Host :: string
  Path :: string

type_synonym parser = "string \<Rightarrow> string + url"

text \<open>\<open>strings.Contains(s, substr)\<close>: \<open>substr\<close> starts at some position of \<open>s\<close>.\<close>

fun Contains :: "string \<Rightarrow> string \<Rightarrow> bool" where
  "Contains [] substr = (substr = [])"
| "Contains (c # s) substr = (prefix substr (c # s) \<or> Contains s substr)"

text \<open>
  The segments of a path, the pieces between its slashes: what the specification's
  words \<open>path segment\<close> speak of.
\<close>

fun segments :: "string \<Rightarrow> string list" where
  "segments [] = [[]]"
| "segments (c # s) =
     (if c = CHR ''/'' then [] # segments s
      else (case segments s of
              seg # rest \<Rightarrow> (c # seg) # rest
            | [] \<Rightarrow> [[c]]))"

text \<open>\<open>validateProxmoxURL\<close>: \<open>None\<close> is \<open>nil\<close>, \<open>Some\<close> the error's message.\<close>

definition validateProxmoxURL :: "parser \<Rightarrow> string \<Rightarrow> string option" where
  "validateProxmoxURL parse targetURL =
     (case parse targetURL of
        Inl err \<Rightarrow> Some (''invalid URL: '' @ err)
      | Inr u \<Rightarrow>
          if Scheme u \<noteq> ''wss'' \<and> Scheme u \<noteq> ''ws''
          then Some (''invalid scheme: '' @ Scheme u @ '', expected ws or wss'')
          else if \<not> Contains (Path u) ''/vncwebsocket''
          then Some (''invalid path: '' @ Path u @ '', expected VNC websocket path'')
          else None)"

section \<open>The session handler \<open>handleVNCWebSocket\<close>\<close>

text \<open>
  \<open>http.Header\<close> maps a header name to its values; \<open>Set\<close> replaces them by
  one value. Names are kept as the source writes them.
\<close>

type_synonym Header = "string \<rightharpoonup> string list"

definition Set :: "Header \<Rightarrow> string \<Rightarrow> string \<Rightarrow> Header" where
  "Set h k v = h(k \<mapsto> [v])"

text \<open>The headers the handler builds for the backend dial.\<close>

definition dialHeaders :: "string \<Rightarrow> string \<Rightarrow> string \<Rightarrow> url \<Rightarrow> Header" where
  "dialHeaders token cookie csrfp_revention_token u =
     (let headers = Map.empty;
          headers =
            (if token \<noteq> ''''
             then Set headers ''Authorization'' (''PVEAPIToken='' @ token)
             else
               (let headers = (if cookie \<noteq> ''''
                               then Set headers ''Cookie'' (''PVEAuthCookie='' @ cookie)
                               else headers)
                in (if csrfp_revention_token \<noteq> ''''
                    then Set headers ''CSRFPreventionToken'' csrfp_revention_token
                    else headers)));
          headers = Set headers ''Host'' (Host u);
          headers = Set headers ''Origin'' (''https://'' @ Host u);
          headers = Set headers ''User-Agent'' ''Mozilla/5.0'';
          headers = Set headers ''Accept-Encoding'' ''gzip, deflate, br'';
          headers = Set headers ''Accept-Language'' ''en-US,en;q=0.9'';
          headers = Set headers ''Cache-Control'' ''no-cache'';
          headers = Set headers ''Pragma'' ''no-cache''
      in headers)"

text \<open>The headers every dial carries, whatever the credentials.\<close>

definition fixedHeaders :: "string set" where
  "fixedHeaders = {''Host'', ''Origin'', ''User-Agent'', ''Accept-Encoding'',
                   ''Accept-Language'', ''Cache-Control'', ''Pragma''}"

text \<open>
  What the handler does to the outside, in order: the plain-text response of
  \<open>ctx.String\<close>, the upgrade of the client connection, the dial of the backend
  with its headers, the closing of a connection, and the relay session (deadlines,
  close handlers, keep-alive and the two forwarding loops) as one step.
\<close>

datatype action =
    CtxString nat string
  | Upgrade
  | Dial string Header
  | CloseClient
  | CloseBackend
  | Session

text \<open>
  \<open>handleVNCWebSocket\<close> for the path parameter \<open>data\<close> on the list \<open>proxied\<close>.
  Whether the upgrade and the dial succeed is decided outside: \<open>upgradeOk\<close>,
  \<open>dialOk\<close>.
\<close>

definition handleVNCWebSocket ::
  "parser \<Rightarrow> bool \<Rightarrow> bool \<Rightarrow> ProxiedList \<Rightarrow> string \<Rightarrow> action list" where
  "handleVNCWebSocket parse upgradeOk dialOk proxied dat =
     (case fst (Get proxied dat) of
        Inl err \<Rightarrow> [CtxString 400 (''token and url error: '' @ err)]
      | Inr (token, cookie, csrfp_revention_token, targetURL) \<Rightarrow>
          (case validateProxmoxURL parse targetURL of
             Some err \<Rightarrow> [CtxString 400 (''invalid URL: '' @ err)]
           | None \<Rightarrow>
               if \<not> upgradeOk then [Upgrade]
               else (case parse targetURL of
                       Inl err \<Rightarrow> [Upgrade, CloseClient, CloseClient]
                     | Inr u \<Rightarrow>
                         (let headers = dialHeaders token cookie csrfp_revention_token u
                          in if \<not> dialOk
                             then [Upgrade, Dial targetURL headers, CloseClient, CloseClient]
                             else [Upgrade, Dial targetURL headers, Session,
                                   CloseBackend, CloseClient]))))"

section \<open>Properties of the forwarding loop\<close>

lemma reads_simps [simp]:
  "reads [] = []"
  "reads ((mt, msg) # ms) = ReadOk mt msg # reads ms"
  by (simp_all add: reads_def)

lemma readable_reads [simp]:
  "readable (reads ms @ ReadErr e # rest) = ms"
  "readable (reads ms @ ReadPanic v # rest) = ms"
  "readable (reads ms) = ms"
  by (induction ms) auto

lemma IsCloseError_graceful: "IsCloseError err closeCodes = graceful err"
  by (cases err) (auto simp: closeCodes_def CloseNormalClosure_def CloseGoingAway_def
      CloseNoStatusReceived_def CloseAbnormalClosure_def)

text \<open>The calls of \<open>WriteMessage\<close> carry messages read, in the order read.\<close>

lemma forward_offered:
  "\<exists>xs. offered (forward dst src s) = offered s @ xs \<and> prefix xs (readable src)"
proof (induction src arbitrary: s)
  case Nil
  then show ?case by simp
next
  case (Cons a src)
  show ?case
  proof (cases a)
    case (ReadOk mt msg)
    show ?thesis
    proof (cases "dst (delivered s) (mt, msg)")
      case WriteOk
      let ?s = "s\<lparr>messageCount := messageCount s + 1,
                  totalBytes := totalBytes s + of_nat (length msg),
                  offered := offered s @ [(mt, msg)],
                  delivered := delivered s @ [(mt, msg)]\<rparr>"
      from Cons.IH[of ?s] obtain xs
        where "offered (forward dst src ?s) = offered ?s @ xs" "prefix xs (readable src)"
        by blast
      then show ?thesis using ReadOk WriteOk by (auto simp: Let_def)
    qed (use ReadOk in \<open>auto simp: Let_def\<close>)
  qed auto
qed

text \<open>What the destination accepted is what was offered, but for a last failed write.\<close>

lemma forward_delivered:
  "\<exists>xs. delivered (forward dst src s) = delivered s @ xs \<and> prefix xs (readable src) \<and>
     (offered (forward dst src s) = offered s @ xs \<or>
      (\<exists>m. offered (forward dst src s) = offered s @ xs @ [m]))"
proof (induction src arbitrary: s)
  case Nil
  then show ?case by simp
next
  case (Cons a src)
  show ?case
  proof (cases a)
    case (ReadOk mt msg)
    show ?thesis
    proof (cases "dst (delivered s) (mt, msg)")
      case WriteOk
      let ?s = "s\<lparr>messageCount := messageCount s + 1,
                  totalBytes := totalBytes s + of_nat (length msg),
                  offered := offered s @ [(mt, msg)],
                  delivered := delivered s @ [(mt, msg)]\<rparr>"
      from Cons.IH[of ?s] obtain xs
        where "delivered (forward dst src ?s) = delivered ?s @ xs" "prefix xs (readable src)"
          "offered (forward dst src ?s) = offered ?s @ xs \<or>
           (\<exists>m. offered (forward dst src ?s) = offered ?s @ xs @ [m])"
        by blast
      then show ?thesis using ReadOk WriteOk by (auto simp: Let_def)
    qed (use ReadOk in \<open>auto simp: Let_def\<close>)
  qed auto
qed

lemma forward_accepts:
  "accepts dst (delivered s) (readable src) \<Longrightarrow>
   delivered (forward dst src s) = delivered s @ readable src \<and>
   offered (forward dst src s) = offered s @ readable src"
proof (induction src arbitrary: s)
  case Nil
  then show ?case by simp
next
  case (Cons a src)
  then show ?case by (cases a) (auto simp: Let_def)
qed

text \<open>The loop stays in \<open>ReadMessage\<close> exactly when no read and no write fails.\<close>

lemma forward_blocked:
  "exit (forward dst src s) = Blocked \<longleftrightarrow>
   src = reads (readable src) \<and> accepts dst (delivered s) (readable src)"
proof (induction src arbitrary: s)
  case Nil
  then show ?case by simp
next
  case (Cons a src)
  then show ?case by (cases a) (auto simp: Let_def split: write_result.splits)
qed

text \<open>The body sends nothing while it waits or panics, and one value before it returns.\<close>

lemma forward_errc:
  "(exit (forward dst src s) = Blocked \<and> errc (forward dst src s) = errc s) \<or>
   (\<exists>v. exit (forward dst src s) = Panicking v \<and> errc (forward dst src s) = errc s) \<or>
   (\<exists>out. exit (forward dst src s) = Returned \<and> errc (forward dst src s) = errc s @ [out])"
proof (induction src arbitrary: s)
  case Nil
  then show ?case by simp
next
  case (Cons a src)
  show ?case
  proof (cases a)
    case (ReadOk mt msg)
    show ?thesis
    proof (cases "dst (delivered s) (mt, msg)")
      case WriteOk
      let ?s = "s\<lparr>messageCount := messageCount s + 1,
                  totalBytes := totalBytes s + of_nat (length msg),
                  offered := offered s @ [(mt, msg)],
                  delivered := delivered s @ [(mt, msg)]\<rparr>"
      from Cons.IH[of ?s] show ?thesis using ReadOk WriteOk by (simp add: Let_def)
    qed (use ReadOk in \<open>auto simp: Let_def\<close>)
  qed auto
qed

lemma forward_read_error:
  "accepts dst (delivered s) ms \<Longrightarrow>
   errc (forward dst (reads ms @ ReadErr err # rest) s) = errc s @ [outcome err] \<and>
   exit (forward dst (reads ms @ ReadErr err # rest) s) = Returned"
proof (induction ms arbitrary: s)
  case Nil
  then show ?case by (simp add: outcome_def)
next
  case (Cons m ms)
  then show ?case by (cases m) (auto simp: Let_def)
qed

lemma forward_write_error:
  "accepts dst (delivered s) ms \<Longrightarrow> dst (delivered s @ ms) (mt, msg) = WriteErr err \<Longrightarrow>
   errc (forward dst (reads ms @ ReadOk mt msg # rest) s) = errc s @ [outcome err] \<and>
   exit (forward dst (reads ms @ ReadOk mt msg # rest) s) = Returned"
proof (induction ms arbitrary: s)
  case Nil
  then show ?case by (simp add: outcome_def Let_def)
next
  case (Cons m ms)
  then show ?case by (cases m) (auto simp: Let_def)
qed

lemma forward_read_panic:
  "accepts dst (delivered s) ms \<Longrightarrow>
   errc (forward dst (reads ms @ ReadPanic v # rest) s) = errc s \<and>
   exit (forward dst (reads ms @ ReadPanic v # rest) s) = Panicking v"
proof (induction ms arbitrary: s)
  case Nil
  then show ?case by simp
next
  case (Cons m ms)
  then show ?case by (cases m) (auto simp: Let_def)
qed

lemma forward_write_panic:
  "accepts dst (delivered s) ms \<Longrightarrow> dst (delivered s @ ms) (mt, msg) = WritePanic v \<Longrightarrow>
   errc (forward dst (reads ms @ ReadOk mt msg # rest) s) = errc s \<and>
   exit (forward dst (reads ms @ ReadOk mt msg # rest) s) = Panicking v"
proof (induction ms arbitrary: s)
  case Nil
  then show ?case by (simp add: Let_def)
next
  case (Cons m ms)
  then show ?case by (cases m) (auto simp: Let_def)
qed

lemma deferred_fields [simp]:
  "offered (deferred s) = offered s"
  "delivered (deferred s) = delivered s"
  by (simp_all add: deferred_def split: exit.splits)

lemma deferred_exit: "exit (deferred s) = (if exit s = Blocked then Blocked else Returned)"
  by (simp add: deferred_def split: exit.splits)

lemma deferred_errc:
  "errc (deferred s) =
     (case exit s of
        Panicking r \<Rightarrow> errc s @ [Some (ErrorString (''panic: '' @ r))]
      | Returned \<Rightarrow> errc s
      | Blocked \<Rightarrow> errc s)"
  by (simp add: deferred_def split: exit.splits)

text \<open>
  C1. In one relay direction the calls of \<open>WriteMessage\<close> carry the messages read
  from the source, with their frame type and payload, one call per message and in the
  order read: what is offered to the destination is an initial part of what the source
  yields, and what the destination accepted is what was offered, but for a last write
  that failed. When the destination accepts every message, it receives exactly the
  messages the source yields before its first failure: none dropped, none twice, none
  split or joined.
\<close>

theorem relay_forwards_messages:
  "prefix (offered (proxyWS src dst errc0 label debug)) (readable src) \<and>
   prefix (delivered (proxyWS src dst errc0 label debug))
          (offered (proxyWS src dst errc0 label debug)) \<and>
   length (offered (proxyWS src dst errc0 label debug))
     \<le> Suc (length (delivered (proxyWS src dst errc0 label debug))) \<and>
   (accepts dst [] (readable src) \<longrightarrow>
      offered (proxyWS src dst errc0 label debug) = readable src \<and>
      delivered (proxyWS src dst errc0 label debug) = readable src)"
proof -
  let ?s = "\<lparr>messageCount = 0, totalBytes = 0, offered = [], delivered = [],
             errc = errc0, exit = Blocked\<rparr>"
  obtain xs where xs: "delivered (forward dst src ?s) = delivered ?s @ xs"
    "offered (forward dst src ?s) = offered ?s @ xs \<or>
     (\<exists>m. offered (forward dst src ?s) = offered ?s @ xs @ [m])"
    using forward_delivered[of dst src ?s] by blast
  obtain ys where ys: "offered (forward dst src ?s) = offered ?s @ ys" "prefix ys (readable src)"
    using forward_offered[of dst src ?s] by blast
  have 1: "prefix (offered (forward dst src ?s)) (readable src)"
    using ys by simp
  have 2: "prefix (delivered (forward dst src ?s)) (offered (forward dst src ?s))"
    using xs by auto
  have 3: "length (offered (forward dst src ?s)) \<le> Suc (length (delivered (forward dst src ?s)))"
    using xs by auto
  have 4: "accepts dst [] (readable src) \<longrightarrow>
      offered (forward dst src ?s) = readable src \<and> delivered (forward dst src ?s) = readable src"
    using forward_accepts[of dst ?s src] by simp
  show ?thesis
    unfolding proxyWS_def using 1 2 3 4 by simp
qed

theorem relay_forwards_messages_witness:
  "accepts (\<lambda>h m. WriteOk) [] [(2, [1, 2, 3]), (1, [])] \<and>
   delivered (proxyWS [ReadOk 2 [1, 2, 3], ReadOk 1 [], ReadErr (CloseError 1000 '''')]
                (\<lambda>h m. WriteOk) [] ''backend->client'' False)
     = [(2, [1, 2, 3]), (1, [])]"
  using relay_forwards_messages[of
      "[ReadOk 2 [1, 2, 3], ReadOk 1 [], ReadErr (CloseError 1000 '''')]"
      "\<lambda>h m. WriteOk" "[]" "''backend->client''" False]
  by simp

text \<open>
  C2. When a read fails with the error \<open>err\<close>, or a write does, after any number of
  messages forwarded, the loop sends one outcome and returns: \<open>nil\<close> if
  \<open>err\<close> is a close error with one of the codes for normal closure, going away, no
  status received or abnormal closure, and \<open>err\<close> itself in every other case.
\<close>

theorem failure_outcome:
  "(accepts dst [] ms \<longrightarrow>
      errc (proxyWS (reads ms @ ReadErr err # rest) dst errc0 label debug)
        = errc0 @ [if graceful err then None else Some err] \<and>
      exit (proxyWS (reads ms @ ReadErr err # rest) dst errc0 label debug) = Returned) \<and>
   (accepts dst [] ms \<and> dst ms (mt, msg) = WriteErr err \<longrightarrow>
      errc (proxyWS (reads ms @ ReadOk mt msg # rest) dst errc0 label debug)
        = errc0 @ [if graceful err then None else Some err] \<and>
      exit (proxyWS (reads ms @ ReadOk mt msg # rest) dst errc0 label debug) = Returned)"
proof -
  let ?s = "\<lparr>messageCount = 0, totalBytes = 0, offered = [], delivered = [],
             errc = errc0, exit = Blocked\<rparr>"
  have r: "accepts dst [] ms \<Longrightarrow>
     errc (forward dst (reads ms @ ReadErr err # rest) ?s) = errc0 @ [outcome err] \<and>
     exit (forward dst (reads ms @ ReadErr err # rest) ?s) = Returned"
    using forward_read_error[of dst ?s ms err rest] by simp
  have w: "accepts dst [] ms \<Longrightarrow> dst ms (mt, msg) = WriteErr err \<Longrightarrow>
     errc (forward dst (reads ms @ ReadOk mt msg # rest) ?s) = errc0 @ [outcome err] \<and>
     exit (forward dst (reads ms @ ReadOk mt msg # rest) ?s) = Returned"
    using forward_write_error[of dst ?s ms mt msg err rest] by simp
  show ?thesis
    unfolding proxyWS_def using r w
    by (auto simp: deferred_def outcome_def IsCloseError_graceful)
qed

theorem failure_outcome_witness:
  "accepts (\<lambda>h m. if length h < 1 then WriteOk else WriteErr (ErrorString ''broken pipe''))
     [] [(2, [7])] \<and>
   errc (proxyWS [ReadOk 2 [7], ReadErr (CloseError 1006 ''unexpected EOF'')]
          (\<lambda>h m. if length h < 1 then WriteOk else WriteErr (ErrorString ''broken pipe''))
          [] ''client->backend'' False) = [None] \<and>
   errc (proxyWS [ReadOk 2 [7], ReadOk 2 [8]]
          (\<lambda>h m. if length h < 1 then WriteOk else WriteErr (ErrorString ''broken pipe''))
          [] ''client->backend'' False) = [Some (ErrorString ''broken pipe'')]"
  using
    failure_outcome[of
      "\<lambda>h m. if length h < 1 then WriteOk else WriteErr (ErrorString ''broken pipe'')"
      "[(2, [7])]" "CloseError 1006 ''unexpected EOF''" "[]" "[]" "''client->backend''" False]
    failure_outcome[of
      "\<lambda>h m. if length h < 1 then WriteOk else WriteErr (ErrorString ''broken pipe'')"
      "[(2, [7])]" "ErrorString ''broken pipe''" "[]" "[]" "''client->backend''" False 2 "[8]"]
  by simp

text \<open>
  C3. A call of \<open>proxyWS\<close> never leaves by a panic: the deferred function recovers
  it. A call that has returned has sent exactly one value on the outcome channel, and a
  call still waiting in \<open>ReadMessage\<close> has sent none. The call returns as soon as a
  read or a write fails or panics (it waits only as long as every read yields a message
  and every write is accepted), and a panic of \<open>ReadMessage\<close> or \<open>WriteMessage\<close>
  with value \<open>v\<close> is reported as the one outcome \<open>panic: v\<close>.
\<close>

theorem one_outcome_per_exit:
  "exit (proxyWS src dst errc0 label debug) \<noteq> Panicking v \<and>
   (exit (proxyWS src dst errc0 label debug) = Returned \<longrightarrow>
      (\<exists>out. errc (proxyWS src dst errc0 label debug) = errc0 @ [out])) \<and>
   (exit (proxyWS src dst errc0 label debug) = Blocked \<longrightarrow>
      errc (proxyWS src dst errc0 label debug) = errc0) \<and>
   ((exit (proxyWS src dst errc0 label debug) = Blocked) =
      (src = reads (readable src) \<and> accepts dst [] (readable src))) \<and>
   (accepts dst [] ms \<longrightarrow>
      errc (proxyWS (reads ms @ ReadPanic v # rest) dst errc0 label debug)
        = errc0 @ [Some (ErrorString (''panic: '' @ v))] \<and>
      exit (proxyWS (reads ms @ ReadPanic v # rest) dst errc0 label debug) = Returned) \<and>
   (accepts dst [] ms \<and> dst ms (mt, msg) = WritePanic v \<longrightarrow>
      errc (proxyWS (reads ms @ ReadOk mt msg # rest) dst errc0 label debug)
        = errc0 @ [Some (ErrorString (''panic: '' @ v))] \<and>
      exit (proxyWS (reads ms @ ReadOk mt msg # rest) dst errc0 label debug) = Returned)"
proof -
  let ?s = "\<lparr>messageCount = 0, totalBytes = 0, offered = [], delivered = [],
             errc = errc0, exit = Blocked\<rparr>"
  have 1: "exit (deferred (forward dst src ?s)) \<noteq> Panicking v"
    by (simp add: deferred_exit)
  have 2: "(exit (deferred (forward dst src ?s)) = Returned \<longrightarrow>
      (\<exists>out. errc (deferred (forward dst src ?s)) = errc0 @ [out])) \<and>
     (exit (deferred (forward dst src ?s)) = Blocked \<longrightarrow>
      errc (deferred (forward dst src ?s)) = errc0)"
    using forward_errc[of dst src ?s] by (auto simp: deferred_exit deferred_errc)
  have 3: "(exit (deferred (forward dst src ?s)) = Blocked) =
      (src = reads (readable src) \<and> accepts dst [] (readable src))"
    using forward_blocked[of dst src ?s] by (simp add: deferred_exit)
  have 4: "accepts dst [] ms \<longrightarrow>
      errc (deferred (forward dst (reads ms @ ReadPanic v # rest) ?s))
        = errc0 @ [Some (ErrorString (''panic: '' @ v))] \<and>
      exit (deferred (forward dst (reads ms @ ReadPanic v # rest) ?s)) = Returned"
    using forward_read_panic[of dst ?s ms v rest] by (simp add: deferred_exit deferred_errc)
  have 5: "accepts dst [] ms \<and> dst ms (mt, msg) = WritePanic v \<longrightarrow>
      errc (deferred (forward dst (reads ms @ ReadOk mt msg # rest) ?s))
        = errc0 @ [Some (ErrorString (''panic: '' @ v))] \<and>
      exit (deferred (forward dst (reads ms @ ReadOk mt msg # rest) ?s)) = Returned"
    using forward_write_panic[of dst ?s ms mt msg v rest]
    by (simp add: deferred_exit deferred_errc)
  show ?thesis
    unfolding proxyWS_def using 1 2 3 4 5 by blast
qed

theorem one_outcome_per_exit_witness:
  "accepts (\<lambda>h m. WriteOk) [] [(2, [7])] \<and>
   errc (proxyWS [ReadOk 2 [7], ReadPanic ''nil pointer dereference'']
          (\<lambda>h m. WriteOk) [] ''client->backend'' True)
     = [Some (ErrorString ''panic: nil pointer dereference'')] \<and>
   exit (proxyWS [ReadOk 2 [7], ReadPanic ''nil pointer dereference'']
          (\<lambda>h m. WriteOk) [] ''client->backend'' True) = Returned"
  using one_outcome_per_exit[of "[]" "\<lambda>h m. WriteOk" "[]" "''client->backend''" True
      "''nil pointer dereference''" "[(2, [7])]" "[]"]
  by simp

section \<open>Properties of the credential cache\<close>

lemma New_facts [simp]:
  "ttl (NewProxiedList d) = d"
  "clock (NewProxiedList d) = 0"
  "timers (NewProxiedList d) = []"
  "data (NewProxiedList d) key = None"
  by (simp_all add: NewProxiedList_def)

lemma Get_fst:
  "fst (Get pl key) =
     (case data pl key of
        Some item \<Rightarrow> Inr (Token item, Cookie item, CSRFPreventionToken item, URL item)
      | None \<Rightarrow> Inl (''key '' @ key @ '' not found''))"
  by (simp add: Get_def Load_def split: option.splits)

lemma Get_snd: "snd (Get pl key) = pl"
  by (simp add: Get_def split: option.splits)

lemma Add_data:
  "data (Add pl key token cookie csrf url) key' =
     (if key' = key
      then Some \<lparr>Token = token, Cookie = cookie, CSRFPreventionToken = csrf, URL = url,
                 timer = length (timers pl)\<rparr>
      else data pl key')"
  by (simp add: Add_def Load_def Stop_def AfterFunc_def Store_def Let_def split: option.splits)

lemma Get_Add: "fst (Get (Add pl key token cookie csrf url) key) = Inr (token, cookie, csrf, url)"
  by (simp add: Get_fst Add_data)

lemma Get_Remove: "fst (Get (Remove pl key) key) = Inl (''key '' @ key @ '' not found'')"
  by (simp add: Get_fst Remove_def Load_def Delete_def Stop_def split: option.splits)

lemma Get_NotFound: "(\<exists>e. fst (Get pl key) = Inl e) = (data pl key = None)"
  by (simp add: Get_fst split: option.splits)

text \<open>A goroutine that runs alone does what the method does when run without interruption.\<close>

lemma run_Add_alone:
  "run [0, 0, 0, 0] [AddLoad key token cookie csrf url] pl
     = ([Finished], Add pl key token cookie csrf url)"
  by (cases "data pl key")
     (simp_all add: Add_def Load_def Stop_def AfterFunc_def Store_def Let_def)

lemma run_Remove_alone:
  "run [0, 0, 0] [RemoveLoad key] pl = ([Finished], Remove pl key)"
  by (cases "data pl key") (simp_all add: Remove_def Load_def)

text \<open>A schedule of goroutine steps alone is played as \<open>run\<close> runs it.\<close>

lemma play_Go: "play (map Go js) gs pl = run js gs pl"
  by (induction js arbitrary: gs pl) (simp_all add: Let_def split: prod.splits)

text \<open>On a list without armed or pending timers, time and timer steps change no entry.\<close>

lemma idle_tick: "idle (tick d pl) = idle pl" "data (tick d pl) = data pl"
  by (simp_all add: idle_def tick_def)

lemma idle_expire: "idle pl \<Longrightarrow> expire t pl = pl"
  by (auto simp: idle_def expire_def list_all_length)

lemma idle_timerFunc: "idle pl \<Longrightarrow> timerFunc t pl = pl"
  by (auto simp: idle_def timerFunc_def list_all_length)

lemma play_idle:
  "idle pl \<Longrightarrow> idle (snd (play es [] pl)) \<and> data (snd (play es [] pl)) = data pl"
proof (induction es arbitrary: pl)
  case Nil
  then show ?case by simp
next
  case (Cons e es)
  show ?case
  proof (cases e)
    case (Go i)
    with Cons show ?thesis by simp
  next
    case (Tick d)
    from Cons.prems have "idle (tick d pl)" by (simp add: idle_tick)
    from Cons.IH[OF this] Tick show ?thesis by (simp add: idle_tick)
  next
    case (Expire t)
    with Cons show ?thesis by (simp add: idle_expire)
  next
    case (Func t)
    with Cons show ?thesis by (simp add: idle_timerFunc)
  qed
qed

text \<open>
  C4. Two runs in which the lookup is not what the claim says. In the first, on a
  list with a TTL of one unit, the timer of \<open>Add\<close> comes due, expires and runs its
  function between \<open>time.AfterFunc\<close> and \<open>Store\<close>: the function deletes
  nothing, \<open>Store\<close> then stores the item, and no timer is left to delete it, so
  that \<open>Get\<close> returns the entry after any time whatever. In the second, the timer
  of a first \<open>Add\<close> has expired, its function still pending, when the token is
  added again; the function then deletes the new entry, and \<open>Get\<close> reports
  \<open>key abc123 not found\<close> with no time passed since the second \<open>Add\<close> and no
  \<open>Remove\<close>.
\<close>

theorem expiry_races_break_lookup:
  "play [Go 0, Go 0, Tick 1, Expire 0, Func 0, Go 0]
     [AddLoad ''abc123'' ''t1'' ''c1'' ''x1'' ''wss://a/vncwebsocket''] (NewProxiedList 1)
   = ([Finished],
      \<lparr>data = [''abc123'' \<mapsto> \<lparr>Token = ''t1'', Cookie = ''c1'', CSRFPreventionToken = ''x1'',
                                URL = ''wss://a/vncwebsocket'', timer = 0\<rparr>],
       ttl = 1,
       timers = [\<lparr>tkey = ''abc123'', deadline = 1, armed = False, pending = False\<rparr>],
       clock = 1\<rparr>) \<and>
   fst (Get (snd (play es []
                (snd (play [Go 0, Go 0, Tick 1, Expire 0, Func 0, Go 0]
                        [AddLoad ''abc123'' ''t1'' ''c1'' ''x1'' ''wss://a/vncwebsocket'']
                        (NewProxiedList 1)))))
        ''abc123'')
     = Inr (''t1'', ''c1'', ''x1'', ''wss://a/vncwebsocket'') \<and>
   fst (Get (timerFunc 0
               (Add (expire 0 (tick 60
                       (Add (NewProxiedList 60) ''abc123'' ''t1'' ''c1'' ''x1''
                          ''wss://a/vncwebsocket'')))
                  ''abc123'' ''t2'' ''c2'' ''x2'' ''wss://b/vncwebsocket''))
        ''abc123'')
     = Inl ''key abc123 not found''"
proof -
  let ?S = "\<lparr>data = [''abc123'' \<mapsto> \<lparr>Token = ''t1'', Cookie = ''c1'', CSRFPreventionToken = ''x1'',
                                URL = ''wss://a/vncwebsocket'', timer = 0\<rparr>],
       ttl = 1,
       timers = [\<lparr>tkey = ''abc123'', deadline = 1, armed = False, pending = False\<rparr>],
       clock = 1\<rparr>"
  have r: "play [Go 0, Go 0, Tick 1, Expire 0, Func 0, Go 0]
     [AddLoad ''abc123'' ''t1'' ''c1'' ''x1'' ''wss://a/vncwebsocket''] (NewProxiedList 1)
   = ([Finished], ?S)"
    by (simp add: NewProxiedList_def Load_def AfterFunc_def Store_def Delete_def
        tick_def expire_def timerFunc_def)
  have "idle ?S"
    by (simp add: idle_def)
  then have "data (snd (play es [] ?S)) = data ?S"
    using play_idle by blast
  then have k: "fst (Get (snd (play es [] ?S)) ''abc123'')
      = Inr (''t1'', ''c1'', ''x1'', ''wss://a/vncwebsocket'')"
    by (simp add: Get_fst)
  have s: "fst (Get (timerFunc 0
               (Add (expire 0 (tick 60
                       (Add (NewProxiedList 60) ''abc123'' ''t1'' ''c1'' ''x1''
                          ''wss://a/vncwebsocket'')))
                  ''abc123'' ''t2'' ''c2'' ''x2'' ''wss://b/vncwebsocket''))
        ''abc123'')
     = Inl ''key abc123 not found''"
    by (simp add: NewProxiedList_def Add_def Get_def Load_def Stop_def AfterFunc_def Store_def
        Delete_def tick_def expire_def timerFunc_def)
  show ?thesis
    unfolding r using k s by simp
qed

text \<open>
  C5. A second \<open>Add\<close> that does not keep the first expiry from deleting its entry.
  The first entry is added on a new list with a TTL of 60; after 60 units its timer
  expires, and before the function of the timer has run the entry is still there and
  the token is added again. \<open>Add\<close> loads the old item and stops its timer, which
  does nothing to a timer that has expired; the new entry is stored with a timer due
  at 120. The pending function then deletes the key: \<open>Get\<close> reports
  \<open>key abc123 not found\<close> at time 60, a full TTL before the new entry is due,
  and the new timer stays armed for an entry that is gone.
\<close>

theorem stale_expiry_deletes_replacement:
  "fst (Get (expire 0 (tick 60
          (Add (NewProxiedList 60) ''abc123'' ''t1'' ''c1'' ''x1'' ''wss://a/vncwebsocket'')))
        ''abc123'')
     = Inr (''t1'', ''c1'', ''x1'', ''wss://a/vncwebsocket'') \<and>
   Add (expire 0 (tick 60
          (Add (NewProxiedList 60) ''abc123'' ''t1'' ''c1'' ''x1'' ''wss://a/vncwebsocket'')))
     ''abc123'' ''t2'' ''c2'' ''x2'' ''wss://b/vncwebsocket''
   = \<lparr>data = [''abc123'' \<mapsto> \<lparr>Token = ''t2'', Cookie = ''c2'', CSRFPreventionToken = ''x2'',
                               URL = ''wss://b/vncwebsocket'', timer = 1\<rparr>],
      ttl = 60,
      timers = [\<lparr>tkey = ''abc123'', deadline = 60, armed = False, pending = True\<rparr>,
                \<lparr>tkey = ''abc123'', deadline = 120, armed = True, pending = False\<rparr>],
      clock = 60\<rparr> \<and>
   timerFunc 0
     (Add (expire 0 (tick 60
             (Add (NewProxiedList 60) ''abc123'' ''t1'' ''c1'' ''x1'' ''wss://a/vncwebsocket'')))
        ''abc123'' ''t2'' ''c2'' ''x2'' ''wss://b/vncwebsocket'')
   = \<lparr>data = Map.empty,
      ttl = 60,
      timers = [\<lparr>tkey = ''abc123'', deadline = 60, armed = False, pending = False\<rparr>,
                \<lparr>tkey = ''abc123'', deadline = 120, armed = True, pending = False\<rparr>],
      clock = 60\<rparr> \<and>
   fst (Get (timerFunc 0
               (Add (expire 0 (tick 60
                       (Add (NewProxiedList 60) ''abc123'' ''t1'' ''c1'' ''x1''
                          ''wss://a/vncwebsocket'')))
                  ''abc123'' ''t2'' ''c2'' ''x2'' ''wss://b/vncwebsocket''))
        ''abc123'')
     = Inl ''key abc123 not found''"
  by (simp add: NewProxiedList_def Add_def Get_def Load_def Stop_def AfterFunc_def Store_def
      Delete_def tick_def expire_def timerFunc_def)

text \<open>
  C8. Two calls of \<open>Add\<close> for one token that overlap on a new list: both load (and
  find nothing to stop), both make their timer, both store. Both goroutines finish;
  the list holds the second item, and two armed timers, 0 and 1, delete the token.
  Timer 0 belongs to no stored item, so a later \<open>Add\<close> stops timer 1 only: an entry
  added 30 units later is deleted by timer 0 after another 30 units, half its TTL.
\<close>

theorem overlapping_adds_two_timers:
  "run [0, 1, 0, 1, 0, 1]
     [AddLoad ''abc123'' ''t1'' ''c1'' ''x1'' ''wss://a/vncwebsocket'',
      AddLoad ''abc123'' ''t2'' ''c2'' ''x2'' ''wss://b/vncwebsocket'']
     (NewProxiedList 60)
   = ([Finished, Finished],
      \<lparr>data = [''abc123'' \<mapsto> \<lparr>Token = ''t2'', Cookie = ''c2'', CSRFPreventionToken = ''x2'',
                                URL = ''wss://b/vncwebsocket'', timer = 1\<rparr>],
       ttl = 60,
       timers = [\<lparr>tkey = ''abc123'', deadline = 60, armed = True, pending = False\<rparr>,
                 \<lparr>tkey = ''abc123'', deadline = 60, armed = True, pending = False\<rparr>],
       clock = 0\<rparr>) \<and>
   armedTimers ''abc123''
     (snd (run [0, 1, 0, 1, 0, 1]
            [AddLoad ''abc123'' ''t1'' ''c1'' ''x1'' ''wss://a/vncwebsocket'',
             AddLoad ''abc123'' ''t2'' ''c2'' ''x2'' ''wss://b/vncwebsocket'']
            (NewProxiedList 60))) = [0, 1] \<and>
   fst (Get (timerFunc 0 (expire 0 (tick 30
          (Add (tick 30
                 (snd (run [0, 1, 0, 1, 0, 1]
                        [AddLoad ''abc123'' ''t1'' ''c1'' ''x1'' ''wss://a/vncwebsocket'',
                         AddLoad ''abc123'' ''t2'' ''c2'' ''x2'' ''wss://b/vncwebsocket'']
                        (NewProxiedList 60))))
             ''abc123'' ''t3'' ''c3'' ''x3'' ''wss://c/vncwebsocket''))))
        ''abc123'')
     = Inl ''key abc123 not found''"
proof -
  have r: "run [0, 1, 0, 1, 0, 1]
     [AddLoad ''abc123'' ''t1'' ''c1'' ''x1'' ''wss://a/vncwebsocket'',
      AddLoad ''abc123'' ''t2'' ''c2'' ''x2'' ''wss://b/vncwebsocket'']
     (NewProxiedList 60)
   = ([Finished, Finished],
      \<lparr>data = [''abc123'' \<mapsto> \<lparr>Token = ''t2'', Cookie = ''c2'', CSRFPreventionToken = ''x2'',
                                URL = ''wss://b/vncwebsocket'', timer = 1\<rparr>],
       ttl = 60,
       timers = [\<lparr>tkey = ''abc123'', deadline = 60, armed = True, pending = False\<rparr>,
                 \<lparr>tkey = ''abc123'', deadline = 60, armed = True, pending = False\<rparr>],
       clock = 0\<rparr>)"
    by (simp add: NewProxiedList_def Load_def AfterFunc_def Store_def)
  show ?thesis
    unfolding r
    by (simp add: armedTimers_def tick_def expire_def timerFunc_def Add_def Get_def Load_def
        Stop_def AfterFunc_def Store_def Delete_def upt_rec)
qed

section \<open>Properties of the target validation and of the handler\<close>

text \<open>\<open>Contains\<close> is the substring relation.\<close>

lemma Contains_iff: "Contains s substr \<longleftrightarrow> (\<exists>p q. s = p @ substr @ q)"
proof (induction s)
  case Nil
  then show ?case by auto
next
  case (Cons c s)
  show ?case
  proof
    assume "Contains (c # s) substr"
    then consider "prefix substr (c # s)" | "Contains s substr" by auto
    then show "\<exists>p q. c # s = p @ substr @ q"
    proof cases
      case 1
      then obtain q where "c # s = substr @ q" by (auto simp: prefix_def)
      then have "c # s = [] @ substr @ q" by simp
      then show ?thesis by blast
    next
      case 2
      then obtain p q where "s = p @ substr @ q" using Cons.IH by blast
      then have "c # s = (c # p) @ substr @ q" by simp
      then show ?thesis by blast
    qed
  next
    assume "\<exists>p q. c # s = p @ substr @ q"
    then obtain p q where pq: "c # s = p @ substr @ q" by blast
    show "Contains (c # s) substr"
    proof (cases p)
      case Nil
      then have "prefix substr (c # s)" using pq by (simp add: prefix_def)
      then show ?thesis by simp
    next
      case (Cons a p')
      then have "s = p' @ substr @ q" using pq by simp
      then have "Contains s substr" using Cons.IH by blast
      then show ?thesis by simp
    qed
  qed
qed

lemma validate_cases:
  "validateProxmoxURL parse targetURL = None \<longleftrightarrow>
     (\<exists>u. parse targetURL = Inr u \<and> (Scheme u = ''wss'' \<or> Scheme u = ''ws'') \<and>
          Contains (Path u) ''/vncwebsocket'')"
  by (auto simp: validateProxmoxURL_def split: sum.splits)

text \<open>
  C9. For a target that parses and has the scheme \<open>ws\<close> or \<open>wss\<close>,
  \<open>validateProxmoxURL\<close> returns \<open>nil\<close> exactly when \<open>/vncwebsocket\<close> occurs
  somewhere in the path, as a substring: the path \<open>/a/vncwebsocketextra/b\<close> of the
  witness is accepted.
\<close>

theorem validate_path_substring:
  "parse targetURL = Inr u \<and> (Scheme u = ''ws'' \<or> Scheme u = ''wss'') \<longrightarrow>
     (validateProxmoxURL parse targetURL = None) = (\<exists>p q. Path u = p @ ''/vncwebsocket'' @ q)"
  by (auto simp: validate_cases Contains_iff)

theorem validate_path_substring_witness:
  "(\<lambda>s. Inr \<lparr>Scheme = ''wss'', Host = ''host'', Path = ''/a/vncwebsocketextra/b''\<rparr> :: string + url)
       ''wss://host/a/vncwebsocketextra/b''
     = Inr \<lparr>Scheme = ''wss'', Host = ''host'', Path = ''/a/vncwebsocketextra/b''\<rparr> \<and>
   validateProxmoxURL (\<lambda>s. Inr \<lparr>Scheme = ''wss'', Host = ''host'', Path = ''/a/vncwebsocketextra/b''\<rparr>)
       ''wss://host/a/vncwebsocketextra/b'' = None"
proof -
  have "''/a/vncwebsocketextra/b'' = ''/a'' @ ''/vncwebsocket'' @ ''extra/b''" by simp
  then have "\<exists>p q. Path \<lparr>Scheme = ''wss'', Host = ''host'', Path = ''/a/vncwebsocketextra/b''\<rparr>
      = p @ ''/vncwebsocket'' @ q"
    unfolding url.select_convs by blast
  then show ?thesis
    using validate_path_substring[of
        "\<lambda>s. Inr \<lparr>Scheme = ''wss'', Host = ''host'', Path = ''/a/vncwebsocketextra/b''\<rparr>"
        "''wss://host/a/vncwebsocketextra/b''"
        "\<lparr>Scheme = ''wss'', Host = ''host'', Path = ''/a/vncwebsocketextra/b''\<rparr>"]
    by simp
qed

lemma handle_rejects:
  "fst (Get proxied dat) = Inr (token, cookie, csrf, targetURL) \<Longrightarrow>
   validateProxmoxURL parse targetURL = Some err \<Longrightarrow>
   handleVNCWebSocket parse upgradeOk dialOk proxied dat = [CtxString 400 (''invalid URL: '' @ err)]"
  by (simp add: handleVNCWebSocket_def)

lemma handle_sockets:
  assumes "Upgrade \<in> set (handleVNCWebSocket parse upgradeOk dialOk proxied dat) \<or>
           Dial url h \<in> set (handleVNCWebSocket parse upgradeOk dialOk proxied dat)"
  shows "\<exists>token cookie csrf targetURL.
           fst (Get proxied dat) = Inr (token, cookie, csrf, targetURL) \<and>
           validateProxmoxURL parse targetURL = None"
proof (cases "fst (Get proxied dat)")
  case (Inl e)
  with assms show ?thesis by (simp add: handleVNCWebSocket_def)
next
  case (Inr f)
  obtain token cookie csrf targetURL where f: "f = (token, cookie, csrf, targetURL)"
    by (cases f) auto
  show ?thesis
  proof (cases "validateProxmoxURL parse targetURL")
    case None
    with Inr f show ?thesis by simp
  next
    case (Some err)
    with assms Inr f show ?thesis by (simp add: handleVNCWebSocket_def)
  qed
qed

lemma handle_accepts:
  "fst (Get proxied dat) = Inr (token, cookie, csrf, targetURL) \<Longrightarrow>
   validateProxmoxURL parse targetURL = None \<Longrightarrow> parse targetURL = Inr u \<Longrightarrow>
   handleVNCWebSocket parse True dialOk proxied dat =
     Upgrade # Dial targetURL (dialHeaders token cookie csrf u) #
       (if dialOk then [Session, CloseBackend, CloseClient] else [CloseClient, CloseClient])"
  by (simp add: handleVNCWebSocket_def Let_def)

lemma validate_fails:
  "(\<exists>err. validateProxmoxURL parse targetURL = Some err) \<longleftrightarrow>
     (\<exists>e. parse targetURL = Inl e) \<or>
     (\<exists>u. parse targetURL = Inr u \<and>
        ((Scheme u \<noteq> ''ws'' \<and> Scheme u \<noteq> ''wss'') \<or> \<not> Contains (Path u) ''/vncwebsocket''))"
  by (auto simp: validateProxmoxURL_def split: sum.splits)

text \<open>
  C6. When the token resolves and its target does not parse, or has a scheme other
  than \<open>ws\<close> and \<open>wss\<close>, or a path in which \<open>/vncwebsocket\<close> does not
  occur, all the handler does is to answer with status 400 and the plain text
  \<open>invalid URL: ...\<close>: no upgrade, no dial. Conversely, a run of the handler in
  which the client connection is upgraded or the backend dialled is one in which the
  token resolved and its target passed the validation.
\<close>

theorem validation_before_sockets:
  "(fst (Get proxied dat) = Inr (token, cookie, csrf, targetURL) \<and>
    ((\<exists>e. parse targetURL = Inl e) \<or>
     (\<exists>u. parse targetURL = Inr u \<and>
        ((Scheme u \<noteq> ''ws'' \<and> Scheme u \<noteq> ''wss'') \<or>
         \<not> (\<exists>p q. Path u = p @ ''/vncwebsocket'' @ q)))) \<longrightarrow>
      (\<exists>err. validateProxmoxURL parse targetURL = Some err \<and>
         handleVNCWebSocket parse upgradeOk dialOk proxied dat
           = [CtxString 400 (''invalid URL: '' @ err)])) \<and>
   (Upgrade \<in> set (handleVNCWebSocket parse upgradeOk dialOk proxied dat) \<or>
    Dial url h \<in> set (handleVNCWebSocket parse upgradeOk dialOk proxied dat) \<longrightarrow>
      (\<exists>token cookie csrf targetURL.
         fst (Get proxied dat) = Inr (token, cookie, csrf, targetURL) \<and>
         validateProxmoxURL parse targetURL = None))"
proof (intro conjI impI)
  assume a: "fst (Get proxied dat) = Inr (token, cookie, csrf, targetURL) \<and>
    ((\<exists>e. parse targetURL = Inl e) \<or>
     (\<exists>u. parse targetURL = Inr u \<and>
        ((Scheme u \<noteq> ''ws'' \<and> Scheme u \<noteq> ''wss'') \<or>
         \<not> (\<exists>p q. Path u = p @ ''/vncwebsocket'' @ q))))"
  then have "\<exists>err. validateProxmoxURL parse targetURL = Some err"
    unfolding validate_fails Contains_iff by blast
  then obtain err where "validateProxmoxURL parse targetURL = Some err" ..
  with a show "\<exists>err. validateProxmoxURL parse targetURL = Some err \<and>
         handleVNCWebSocket parse upgradeOk dialOk proxied dat
           = [CtxString 400 (''invalid URL: '' @ err)]"
    using handle_rejects[of proxied dat token cookie csrf targetURL parse err upgradeOk dialOk]
    by blast
next
  assume "Upgrade \<in> set (handleVNCWebSocket parse upgradeOk dialOk proxied dat) \<or>
    Dial url h \<in> set (handleVNCWebSocket parse upgradeOk dialOk proxied dat)"
  then show "\<exists>token cookie csrf targetURL.
         fst (Get proxied dat) = Inr (token, cookie, csrf, targetURL) \<and>
         validateProxmoxURL parse targetURL = None"
    by (rule handle_sockets)
qed

theorem validation_before_sockets_witness:
  "fst (Get (Add (NewProxiedList 60) ''abc123'' ''tok'' '''' '''' ''http://host/vncwebsocket'') ''abc123'')
     = Inr (''tok'', '''', '''', ''http://host/vncwebsocket'') \<and>
   Scheme \<lparr>Scheme = ''http'', Host = ''host'', Path = ''/vncwebsocket''\<rparr> \<noteq> ''ws'' \<and>
   Scheme \<lparr>Scheme = ''http'', Host = ''host'', Path = ''/vncwebsocket''\<rparr> \<noteq> ''wss'' \<and>
   handleVNCWebSocket (\<lambda>s. Inr \<lparr>Scheme = ''http'', Host = ''host'', Path = ''/vncwebsocket''\<rparr>)
       True True (Add (NewProxiedList 60) ''abc123'' ''tok'' '''' '''' ''http://host/vncwebsocket'')
       ''abc123''
     = [CtxString 400 ''invalid URL: invalid scheme: http, expected ws or wss'']"
  using validation_before_sockets[of
      "Add (NewProxiedList 60) ''abc123'' ''tok'' '''' '''' ''http://host/vncwebsocket''"
      "''abc123''" "''tok''" "''''" "''''" "''http://host/vncwebsocket''"
      "\<lambda>s. Inr \<lparr>Scheme = ''http'', Host = ''host'', Path = ''/vncwebsocket''\<rparr>"
      True True]
  by (simp add: Get_Add validateProxmoxURL_def)

text \<open>
  The path test is not a test for a path segment: \<open>vncwebsocket\<close> is no segment
  of the path \<open>/a/vncwebsocketextra/b\<close>, and the session for this target is not
  rejected: the client connection is upgraded and the backend dialled.
\<close>

theorem substring_not_segment_counterexample:
  "''vncwebsocket'' \<notin> set (segments ''/a/vncwebsocketextra/b'') \<and>
   handleVNCWebSocket
       (\<lambda>s. Inr \<lparr>Scheme = ''wss'', Host = ''host'', Path = ''/a/vncwebsocketextra/b''\<rparr>)
       True True
       (Add (NewProxiedList 60) ''abc123'' ''tok'' '''' '''' ''wss://host/a/vncwebsocketextra/b'')
       ''abc123''
     = [Upgrade,
        Dial ''wss://host/a/vncwebsocketextra/b''
          (dialHeaders ''tok'' '''' ''''
             \<lparr>Scheme = ''wss'', Host = ''host'', Path = ''/a/vncwebsocketextra/b''\<rparr>),
        Session, CloseBackend, CloseClient]"
proof -
  have v: "validateProxmoxURL
       (\<lambda>s. Inr \<lparr>Scheme = ''wss'', Host = ''host'', Path = ''/a/vncwebsocketextra/b''\<rparr>)
       ''wss://host/a/vncwebsocketextra/b'' = None"
    by (simp add: validateProxmoxURL_def)
  have s: "segments ''/a/vncwebsocketextra/b'' = ['''', ''a'', ''vncwebsocketextra'', ''b'']"
    by simp
  show ?thesis
    unfolding s using handle_accepts[OF Get_Add v, of _ True "NewProxiedList 60" "''abc123''" "''tok''" "''''" "''''"]
    by simp
qed

text \<open>The headers of the dial, name by name, and the set of names.\<close>

lemma dialHeaders_credentials:
  "dialHeaders token cookie csrf u ''Authorization'' =
     (if token \<noteq> '''' then Some [''PVEAPIToken='' @ token] else None)"
  "dialHeaders token cookie csrf u ''Cookie'' =
     (if token = '''' \<and> cookie \<noteq> '''' then Some [''PVEAuthCookie='' @ cookie] else None)"
  "dialHeaders token cookie csrf u ''CSRFPreventionToken'' =
     (if token = '''' \<and> csrf \<noteq> '''' then Some [csrf] else None)"
  by (simp_all add: dialHeaders_def Set_def Let_def)

lemma dialHeaders_fixed:
  "dialHeaders token cookie csrf u ''Host'' = Some [Host u]"
  "dialHeaders token cookie csrf u ''Origin'' = Some [''https://'' @ Host u]"
  "dialHeaders token cookie csrf u ''User-Agent'' = Some [''Mozilla/5.0'']"
  "dialHeaders token cookie csrf u ''Accept-Encoding'' = Some [''gzip, deflate, br'']"
  "dialHeaders token cookie csrf u ''Accept-Language'' = Some [''en-US,en;q=0.9'']"
  "dialHeaders token cookie csrf u ''Cache-Control'' = Some [''no-cache'']"
  "dialHeaders token cookie csrf u ''Pragma'' = Some [''no-cache'']"
  by (simp_all add: dialHeaders_def Set_def Let_def)

lemma dom_Set: "dom (Set h k v) = insert k (dom h)"
  by (simp add: Set_def)

lemma dom_Set7:
  "dom (Set (Set (Set (Set (Set (Set (Set h k1 v1) k2 v2) k3 v3) k4 v4) k5 v5) k6 v6) k7 v7) =
     {k1, k2, k3, k4, k5, k6, k7} \<union> dom h"
  by (auto simp: Set_def)

lemma dialHeaders_dom:
  "dom (dialHeaders token cookie csrf u) =
     fixedHeaders \<union>
     (if token \<noteq> '''' then {''Authorization''}
      else (if cookie \<noteq> '''' then {''Cookie''} else {}) \<union>
           (if csrf \<noteq> '''' then {''CSRFPreventionToken''} else {}))"
proof -
  define C :: Header where
    "C = (if token \<noteq> ''''
          then Set Map.empty ''Authorization'' (''PVEAPIToken='' @ token)
          else (let headers = (if cookie \<noteq> ''''
                               then Set Map.empty ''Cookie'' (''PVEAuthCookie='' @ cookie)
                               else Map.empty)
                in (if csrf \<noteq> ''''
                    then Set headers ''CSRFPreventionToken'' csrf
                    else headers)))"
  have 1: "dialHeaders token cookie csrf u =
      Set (Set (Set (Set (Set (Set (Set C ''Host'' (Host u)) ''Origin'' (''https://'' @ Host u))
        ''User-Agent'' ''Mozilla/5.0'') ''Accept-Encoding'' ''gzip, deflate, br'')
        ''Accept-Language'' ''en-US,en;q=0.9'') ''Cache-Control'' ''no-cache'') ''Pragma'' ''no-cache''"
    unfolding dialHeaders_def C_def Let_def ..
  have 2: "dom C = (if token \<noteq> '''' then {''Authorization''}
      else (if cookie \<noteq> '''' then {''Cookie''} else {}) \<union>
           (if csrf \<noteq> '''' then {''CSRFPreventionToken''} else {}))"
  proof (cases "token = []")
    case False
    then show ?thesis by (simp add: C_def dom_Set)
  next
    case True
    then show ?thesis
      by (cases "cookie = []"; cases "csrf = []") (simp_all add: C_def dom_Set Let_def)
  qed
  show ?thesis
    unfolding 1 dom_Set7 2 fixedHeaders_def ..
qed

text \<open>A dial in a run of the handler is the dial of the resolved target, with the headers built.\<close>

lemma handle_dial:
  assumes "Dial url h \<in> set (handleVNCWebSocket parse upgradeOk dialOk proxied dat)"
  shows "\<exists>token cookie csrf u.
           fst (Get proxied dat) = Inr (token, cookie, csrf, url) \<and> parse url = Inr u \<and>
           h = dialHeaders token cookie csrf u"
proof (cases "fst (Get proxied dat)")
  case (Inl e)
  with assms show ?thesis by (simp add: handleVNCWebSocket_def)
next
  case (Inr f)
  obtain token cookie csrf targetURL where f: "f = (token, cookie, csrf, targetURL)"
    by (cases f) auto
  show ?thesis
  proof (cases "validateProxmoxURL parse targetURL")
    case (Some err)
    with assms Inr f show ?thesis by (simp add: handleVNCWebSocket_def)
  next
    case None
    show ?thesis
    proof (cases "parse targetURL")
      case (Inl e)
      with assms Inr f None show ?thesis
        by (simp add: handleVNCWebSocket_def split: if_splits)
    next
      case u: (Inr u)
      with assms Inr f None show ?thesis
        by (auto simp: handleVNCWebSocket_def Let_def split: if_splits)
    qed
  qed
qed

text \<open>
  C7. Every backend dial of the handler carries the headers built from the fields
  stored under the token. With a non-empty token it carries \<open>Authorization\<close> with
  \<open>PVEAPIToken=\<close> and the token, and neither \<open>Cookie\<close> nor
  \<open>CSRFPreventionToken\<close>; with an empty token it carries no \<open>Authorization\<close>,
  and \<open>Cookie\<close> and \<open>CSRFPreventionToken\<close> each exactly when the stored field
  is non-empty. The seven fixed headers are there in both cases, \<open>Host\<close> and
  \<open>Origin\<close> from the host of the target, and no other header is set.
\<close>

theorem dial_credentials_exclusive:
  "Dial url h \<in> set (handleVNCWebSocket parse upgradeOk dialOk proxied dat) \<longrightarrow>
     (\<exists>token cookie csrf u.
        fst (Get proxied dat) = Inr (token, cookie, csrf, url) \<and> parse url = Inr u \<and>
        (token \<noteq> '''' \<longrightarrow>
           h ''Authorization'' = Some [''PVEAPIToken='' @ token] \<and>
           h ''Cookie'' = None \<and> h ''CSRFPreventionToken'' = None \<and>
           dom h = fixedHeaders \<union> {''Authorization''}) \<and>
        (token = '''' \<longrightarrow>
           h ''Authorization'' = None \<and>
           h ''Cookie'' = (if cookie \<noteq> '''' then Some [''PVEAuthCookie='' @ cookie] else None) \<and>
           h ''CSRFPreventionToken'' = (if csrf \<noteq> '''' then Some [csrf] else None) \<and>
           dom h = fixedHeaders \<union>
                   ((if cookie \<noteq> '''' then {''Cookie''} else {}) \<union>
                    (if csrf \<noteq> '''' then {''CSRFPreventionToken''} else {}))) \<and>
        h ''Host'' = Some [Host u] \<and>
        h ''Origin'' = Some [''https://'' @ Host u] \<and>
        h ''User-Agent'' = Some [''Mozilla/5.0''] \<and>
        h ''Accept-Encoding'' = Some [''gzip, deflate, br''] \<and>
        h ''Accept-Language'' = Some [''en-US,en;q=0.9''] \<and>
        h ''Cache-Control'' = Some [''no-cache''] \<and>
        h ''Pragma'' = Some [''no-cache''])"
proof
  assume "Dial url h \<in> set (handleVNCWebSocket parse upgradeOk dialOk proxied dat)"
  then obtain token cookie csrf u where
    g: "fst (Get proxied dat) = Inr (token, cookie, csrf, url)" "parse url = Inr u"
    and h: "h = dialHeaders token cookie csrf u"
    using handle_dial by blast
  have c1: "token \<noteq> '''' \<longrightarrow>
           h ''Authorization'' = Some [''PVEAPIToken='' @ token] \<and>
           h ''Cookie'' = None \<and> h ''CSRFPreventionToken'' = None \<and>
           dom h = fixedHeaders \<union> {''Authorization''}"
    unfolding h dialHeaders_credentials dialHeaders_dom by simp
  have c2: "token = '''' \<longrightarrow>
           h ''Authorization'' = None \<and>
           h ''Cookie'' = (if cookie \<noteq> '''' then Some [''PVEAuthCookie='' @ cookie] else None) \<and>
           h ''CSRFPreventionToken'' = (if csrf \<noteq> '''' then Some [csrf] else None) \<and>
           dom h = fixedHeaders \<union>
                   ((if cookie \<noteq> '''' then {''Cookie''} else {}) \<union>
                    (if csrf \<noteq> '''' then {''CSRFPreventionToken''} else {}))"
    unfolding h dialHeaders_credentials dialHeaders_dom by simp
  have c3: "h ''Host'' = Some [Host u]"
    "h ''Origin'' = Some [''https://'' @ Host u]"
    "h ''User-Agent'' = Some [''Mozilla/5.0'']"
    "h ''Accept-Encoding'' = Some [''gzip, deflate, br'']"
    "h ''Accept-Language'' = Some [''en-US,en;q=0.9'']"
    "h ''Cache-Control'' = Some [''no-cache'']"
    "h ''Pragma'' = Some [''no-cache'']"
    unfolding h by (rule dialHeaders_fixed)+
  from g c1 c2 c3 show "\<exists>token cookie csrf u.
        fst (Get proxied dat) = Inr (token, cookie, csrf, url) \<and> parse url = Inr u \<and>
        (token \<noteq> '''' \<longrightarrow>
           h ''Authorization'' = Some [''PVEAPIToken='' @ token] \<and>
           h ''Cookie'' = None \<and> h ''CSRFPreventionToken'' = None \<and>
           dom h = fixedHeaders \<union> {''Authorization''}) \<and>
        (token = '''' \<longrightarrow>
           h ''Authorization'' = None \<and>
           h ''Cookie'' = (if cookie \<noteq> '''' then Some [''PVEAuthCookie='' @ cookie] else None) \<and>
           h ''CSRFPreventionToken'' = (if csrf \<noteq> '''' then Some [csrf] else None) \<and>
           dom h = fixedHeaders \<union>
                   ((if cookie \<noteq> '''' then {''Cookie''} else {}) \<union>
                    (if csrf \<noteq> '''' then {''CSRFPreventionToken''} else {}))) \<and>
        h ''Host'' = Some [Host u] \<and>
        h ''Origin'' = Some [''https://'' @ Host u] \<and>
        h ''User-Agent'' = Some [''Mozilla/5.0''] \<and>
        h ''Accept-Encoding'' = Some [''gzip, deflate, br''] \<and>
        h ''Accept-Language'' = Some [''en-US,en;q=0.9''] \<and>
        h ''Cache-Control'' = Some [''no-cache''] \<and>
        h ''Pragma'' = Some [''no-cache'']"
    by (intro exI conjI) assumption+
qed

theorem dial_credentials_exclusive_witness:
  "Dial ''wss://host/vncwebsocket?port=1''
      (dialHeaders ''root@pam!vnc=1234'' ''ck'' ''cs''
         \<lparr>Scheme = ''wss'', Host = ''host'', Path = ''/vncwebsocket''\<rparr>)
     \<in> set (handleVNCWebSocket
              (\<lambda>s. Inr \<lparr>Scheme = ''wss'', Host = ''host'', Path = ''/vncwebsocket''\<rparr>) True True
              (Add (NewProxiedList 60) ''abc123'' ''root@pam!vnc=1234'' ''ck'' ''cs''
                 ''wss://host/vncwebsocket?port=1'') ''abc123'') \<and>
   dialHeaders ''root@pam!vnc=1234'' ''ck'' ''cs''
       \<lparr>Scheme = ''wss'', Host = ''host'', Path = ''/vncwebsocket''\<rparr> ''Authorization''
     = Some [''PVEAPIToken=root@pam!vnc=1234''] \<and>
   dialHeaders ''root@pam!vnc=1234'' ''ck'' ''cs''
       \<lparr>Scheme = ''wss'', Host = ''host'', Path = ''/vncwebsocket''\<rparr> ''Cookie'' = None"
proof -
  let ?parse = "\<lambda>s::string. Inr \<lparr>Scheme = ''wss'', Host = ''host'', Path = ''/vncwebsocket''\<rparr> :: string + url"
  let ?pl = "Add (NewProxiedList 60) ''abc123'' ''root@pam!vnc=1234'' ''ck'' ''cs''
                 ''wss://host/vncwebsocket?port=1''"
  let ?h = "dialHeaders ''root@pam!vnc=1234'' ''ck'' ''cs''
         \<lparr>Scheme = ''wss'', Host = ''host'', Path = ''/vncwebsocket''\<rparr>"
  have v: "validateProxmoxURL ?parse ''wss://host/vncwebsocket?port=1'' = None"
    by (simp add: validateProxmoxURL_def)
  have d: "Dial ''wss://host/vncwebsocket?port=1'' ?h
      \<in> set (handleVNCWebSocket ?parse True True ?pl ''abc123'')"
    using handle_accepts[OF Get_Add v, of _ True "NewProxiedList 60" "''abc123''"] by simp
  show ?thesis
    using d dial_credentials_exclusive[of "''wss://host/vncwebsocket?port=1''" ?h ?parse True True ?pl "''abc123''"]
    by (simp add: Get_Add)
qed

text \<open>
  C10. \<open>Add\<close> stores an empty token as it stores any other, and \<open>Get\<close> returns
  it. The dial for such an entry takes the cookie branch: no \<open>Authorization\<close>
  header, \<open>Cookie\<close> and \<open>CSRFPreventionToken\<close> only for a non-empty field; when
  cookie and CSRF token are empty too, the dial carries the fixed headers and nothing
  else.
\<close>

theorem empty_credentials:
  "fst (Get (Add pl key '''' cookie csrf targetURL) key) = Inr ('''', cookie, csrf, targetURL) \<and>
   (parse targetURL = Inr u \<and> validateProxmoxURL parse targetURL = None \<longrightarrow>
      (\<exists>h rest.
         handleVNCWebSocket parse True dialOk (Add pl key '''' cookie csrf targetURL) key
           = Upgrade # Dial targetURL h # rest \<and>
         h ''Authorization'' = None \<and>
         h ''Cookie'' = (if cookie = '''' then None else Some [''PVEAuthCookie='' @ cookie]) \<and>
         h ''CSRFPreventionToken'' = (if csrf = '''' then None else Some [csrf]) \<and>
         (cookie = '''' \<and> csrf = '''' \<longrightarrow> dom h = fixedHeaders)))"
proof (intro conjI impI)
  show "fst (Get (Add pl key '''' cookie csrf targetURL) key) = Inr ('''', cookie, csrf, targetURL)"
    by (rule Get_Add)
next
  assume a: "parse targetURL = Inr u \<and> validateProxmoxURL parse targetURL = None"
  let ?h = "dialHeaders '''' cookie csrf u"
  have "handleVNCWebSocket parse True dialOk (Add pl key '''' cookie csrf targetURL) key
      = Upgrade # Dial targetURL ?h #
          (if dialOk then [Session, CloseBackend, CloseClient] else [CloseClient, CloseClient])"
    using a handle_accepts[OF Get_Add, of parse targetURL u dialOk pl key "''''" cookie csrf] by simp
  moreover have "?h ''Authorization'' = None"
    "?h ''Cookie'' = (if cookie = '''' then None else Some [''PVEAuthCookie='' @ cookie])"
    "?h ''CSRFPreventionToken'' = (if csrf = '''' then None else Some [csrf])"
    "cookie = '''' \<and> csrf = '''' \<longrightarrow> dom ?h = fixedHeaders"
    by (simp_all add: dialHeaders_credentials dialHeaders_dom)
  ultimately show "\<exists>h rest.
         handleVNCWebSocket parse True dialOk (Add pl key '''' cookie csrf targetURL) key
           = Upgrade # Dial targetURL h # rest \<and>
         h ''Authorization'' = None \<and>
         h ''Cookie'' = (if cookie = '''' then None else Some [''PVEAuthCookie='' @ cookie]) \<and>
         h ''CSRFPreventionToken'' = (if csrf = '''' then None else Some [csrf]) \<and>
         (cookie = '''' \<and> csrf = '''' \<longrightarrow> dom h = fixedHeaders)"
    by blast
qed

theorem empty_credentials_witness:
  "validateProxmoxURL (\<lambda>s. Inr \<lparr>Scheme = ''wss'', Host = ''host'', Path = ''/vncwebsocket''\<rparr>)
      ''wss://host/vncwebsocket'' = None \<and>
   (\<exists>h rest.
      handleVNCWebSocket (\<lambda>s. Inr \<lparr>Scheme = ''wss'', Host = ''host'', Path = ''/vncwebsocket''\<rparr>)
          True True (Add (NewProxiedList 60) ''abc123'' '''' '''' '''' ''wss://host/vncwebsocket'')
          ''abc123''
        = Upgrade # Dial ''wss://host/vncwebsocket'' h # rest \<and>
      h ''Authorization'' = None \<and> h ''Cookie'' = None \<and> h ''CSRFPreventionToken'' = None \<and>
      dom h = fixedHeaders)"
proof -
  have v: "validateProxmoxURL (\<lambda>s. Inr \<lparr>Scheme = ''wss'', Host = ''host'', Path = ''/vncwebsocket''\<rparr>)
      ''wss://host/vncwebsocket'' = None"
    by (simp add: validateProxmoxURL_def)
  show ?thesis
    using v empty_credentials[of "NewProxiedList 60" "''abc123''" "''''" "''''" "''wss://host/vncwebsocket''"
        "\<lambda>s. Inr \<lparr>Scheme = ''wss'', Host = ''host'', Path = ''/vncwebsocket''\<rparr>"
        "\<lparr>Scheme = ''wss'', Host = ''host'', Path = ''/vncwebsocket''\<rparr>" True]
    by simp
qed

end
